theory Spec2Isabelle
  imports Main
begin

section \<open>Common JavaScript notions\<close>

text \<open>
  Objects of the library (calls, direct connections, endpoints, media streams) are
  compared by reference (\<open>===\<close>, \<open>Array.prototype.indexOf\<close>), so each object is
  an address and its fields live in a store that maps addresses to field records.
\<close>

type_synonym ref = nat

datatype js_error = Error string | TypeError | RangeError

text \<open>Truthiness of an optional string: \<open>undefined\<close> and the empty string are falsy.\<close>

definition truthy :: "string option \<Rightarrow> bool" where
  "truthy v = (case v of None \<Rightarrow> False | Some s \<Rightarrow> s \<noteq> [])"

text \<open>Truthiness of an optional boolean: \<open>undefined\<close> and \<open>false\<close> are falsy.\<close>

definition truthy_flag :: "bool option \<Rightarrow> bool" where
  "truthy_flag v = (v = Some True)"

text \<open>\<open>x || d\<close> on an optional string.\<close>

definition or_default :: "string option \<Rightarrow> string \<Rightarrow> string" where
  "or_default v d = (case v of None \<Rightarrow> d | Some s \<Rightarrow> if s = [] then d else s)"

text \<open>
  Everything an operation does besides updating its own state is appended, in program
  order, to a trace: log lines, notifications published with \<open>fire\<close>, and the calls made
  on collaborators that are not part of these sources (the call and
  direct-connection engines, the signaling channel, the media engine).
\<close>

datatype payload =
    NoPayload
  | PresencePayload string
  | CallPayload "ref option" ref
  | DirectConnectionPayload ref
  | MutePayload string bool

record signal_args =
  sig_connectionId :: "string option"
  sig_signal :: "string option"

datatype effect =
    Log string string
  | Fire string payload
  | Reject ref
  | Accept ref
  | ListenOnce ref string
  | Ignore ref
  | Construct ref
  | ChannelSendSignal signal_args

section \<open>User: the collection of active calls\<close>

text \<open>
  The fields of a call or direct connection that \<open>User\<close> reads: \<open>className\<close>,
  \<open>id\<close> and \<open>initiator\<close>.
\<close>

record call_obj =
  className :: string
  obj_id :: "string option"
  initiator :: "bool option"

text \<open>
  The closure state of \<open>brightstream.User\<close>: \<open>var calls = []\<close>, the listeners
  registered on the event emitter, and the trace.
\<close>

record user =
  calls :: "ref list"
  listeners :: "(string \<times> nat) list"
  u_trace :: "effect list"

definition new_User :: user where
  "new_User = \<lparr>calls = [], listeners = [], u_trace = []\<rparr>"

text \<open>
  Modelled from the spec: \<open>hasListeners\<close> belongs to the event emitter, which is not
  among the files; the spec speaks of an identity that "has zero registered call
  subscribers". A listener is a pair of an event name and a handler.
\<close>

definition hasListeners :: "user \<Rightarrow> string \<Rightarrow> bool" where
  "hasListeners u name = (name \<in> set (map fst (listeners u)))"

definition listen :: "string \<Rightarrow> nat \<Rightarrow> user \<Rightarrow> user" where
  "listen name h u = u\<lparr>listeners := listeners u @ [(name, h)]\<rparr>"

definition emit :: "effect list \<Rightarrow> user \<Rightarrow> user" where
  "emit es u = u\<lparr>u_trace := u_trace u @ es\<rparr>"

record addCall_params =
  ac_call :: ref
  ac_endpoint :: "ref option"

text \<open>
  \<open>User.addCall\<close>. The call is pushed first; the check for an incoming call without
  listeners comes after the push and returns before \<open>fire\<close>.
\<close>

definition addCall :: "(ref \<Rightarrow> call_obj) \<Rightarrow> addCall_params \<Rightarrow> user \<Rightarrow> user" where
  "addCall objs p u =
     (if ac_call p \<notin> set (calls u) then
        (let u1 = u\<lparr>calls := calls u @ [ac_call p]\<rparr> in
         if className (objs (ac_call p)) = ''brightstream.Call'' then
           (if \<not> truthy_flag (initiator (objs (ac_call p))) \<and> \<not> hasListeners u1 ''call'' then
              emit [Log ''warn'' ''Got an incoming call with no handlers to accept it!'',
                    Reject (ac_call p)] u1
            else
              emit [Fire ''call'' (CallPayload (ac_endpoint p) (ac_call p))] u1)
         else u1)
      else u)"

record removeCall_params =
  rc_id :: "string option"
  rc_call :: "ref option"

text \<open>
  The test of the loop body:
  \<open>calls[i].id === params.id || (params.call && calls[i] === params.call)\<close>.
\<close>

definition matches :: "(ref \<Rightarrow> call_obj) \<Rightarrow> removeCall_params \<Rightarrow> ref \<Rightarrow> bool" where
  "matches objs p c = (obj_id (objs c) = rc_id p \<or> rc_call p = Some c)"

text \<open>
  The loop \<open>for (var i = calls.length - 1; i >= 0; i -= 1)\<close>. The counter of the model
  is \<open>i + 1\<close>. \<open>calls.splice(i)\<close> with one argument removes everything from index
  \<open>i\<close> to the end. Reading \<open>calls[i].id\<close> beyond the end of the array would be a
  \<open>TypeError\<close>; the third component of the result records it.
\<close>

fun removeCall_loop ::
  "(ref \<Rightarrow> call_obj) \<Rightarrow> removeCall_params \<Rightarrow> nat \<Rightarrow> ref list \<Rightarrow> bool
     \<Rightarrow> ref list \<times> bool \<times> js_error option" where
  "removeCall_loop objs p 0 cs m = (cs, m, None)"
| "removeCall_loop objs p (Suc i) cs m =
     (if i < length cs then
        (if matches objs p (cs ! i) then removeCall_loop objs p i (take i cs) True
         else removeCall_loop objs p i cs m)
      else (cs, m, Some TypeError))"

text \<open>
  \<open>User.removeCall\<close>: the state after the invocation and the exception thrown, if any.
  The argument is \<open>None\<close> when the function is invoked without one: there is no
  \<open>params = params || {}\<close>, so the first read, \<open>params.id\<close>, is then a
  \<open>TypeError\<close>.
\<close>

definition removeCall ::
  "(ref \<Rightarrow> call_obj) \<Rightarrow> removeCall_params option \<Rightarrow> user \<Rightarrow> user \<times> js_error option" where
  "removeCall objs params u =
     (case params of
        None \<Rightarrow> (u, Some TypeError)
      | Some p \<Rightarrow>
          (if \<not> truthy (rc_id p) \<and> rc_call p = None then
             (u, Some (Error ''Must specify endpointId of Call to remove or the call itself.''))
           else
             (case removeCall_loop objs p (length (calls u)) (calls u) False of
                (cs, m, Some e) \<Rightarrow> (u\<lparr>calls := cs\<rparr>, Some e)
              | (cs, m, None) \<Rightarrow>
                  (if \<not> m then emit [Log ''warn'' ''No call removed.''] (u\<lparr>calls := cs\<rparr>)
                   else u\<lparr>calls := cs\<rparr>, None))))"

text \<open>The operations an application and the endpoints perform on a user, in sequence.\<close>

datatype user_op =
    AddCall addCall_params
  | RemoveCall "removeCall_params option"
  | Listen string nat

fun user_step :: "(ref \<Rightarrow> call_obj) \<Rightarrow> user \<Rightarrow> user_op \<Rightarrow> user" where
  "user_step objs u (AddCall p) = addCall objs p u"
| "user_step objs u (RemoveCall p) = fst (removeCall objs p u)"
| "user_step objs u (Listen name h) = listen name h u"

definition user_run :: "(ref \<Rightarrow> call_obj) \<Rightarrow> user_op list \<Rightarrow> user" where
  "user_run objs ops = foldl (user_step objs) new_User ops"

text \<open>Concrete objects and states used to evaluate the operations.\<close>

definition ex_call_objs :: "ref \<Rightarrow> call_obj" where
  "ex_call_objs r =
     (if r = 1 then \<lparr>className = ''brightstream.Call'', obj_id = Some ''X'', initiator = Some False\<rparr>
      else if r = 2 then \<lparr>className = ''brightstream.Call'', obj_id = Some ''B'', initiator = Some True\<rparr>
      else \<lparr>className = ''brightstream.DirectConnection'', obj_id = Some ''C'', initiator = Some False\<rparr>)"

definition ex_incoming :: addCall_params where
  "ex_incoming = \<lparr>ac_call = 1, ac_endpoint = Some 10\<rparr>"

definition ex_user_ABC :: user where
  "ex_user_ABC = \<lparr>calls = [1, 2, 3], listeners = [(''call'', 0)], u_trace = []\<rparr>"

section \<open>Presentable and Endpoint: presence\<close>

text \<open>
  One entry of the \<open>sessions\<close> object: \<open>{connectionId: ..., presence: ...}\<close>.
\<close>

record session =
  connectionId :: string
  presence :: string

text \<open>
  A JavaScript object with string keys is the association list of its own enumerable
  properties, in the order in which \<open>Object.keys\<close> enumerates them: first the keys
  that are array indices, in ascending numeric order, then the other keys in the order
  of their creation.
\<close>

type_synonym 'v js_object = "(string \<times> 'v) list"

definition Object_keys :: "'v js_object \<Rightarrow> string list" where
  "Object_keys obj = map fst obj"

text \<open>\<open>Array.prototype.indexOf\<close>: the first index of the value, or \<open>-1\<close>.\<close>

fun indexOf :: "'a list \<Rightarrow> 'a \<Rightarrow> int" where
  "indexOf [] x = - 1"
| "indexOf (y # ys) x =
     (if x = y then 0 else (let i = indexOf ys x in if i = - 1 then - 1 else i + 1))"

text \<open>
  An array index is the canonical decimal numeral of an integer from \<open>0\<close> to
  \<open>2\<^sup>3\<^sup>2 - 2\<close>: digits only, no leading zero.
\<close>

definition decimal_value :: "string \<Rightarrow> nat" where
  "decimal_value s = foldl (\<lambda>n ch. 10 * n + nat (indexOf ''0123456789'' ch)) 0 s"

definition is_array_index :: "string \<Rightarrow> bool" where
  "is_array_index s =
     (s \<noteq> [] \<and> list_all (\<lambda>ch. indexOf ''0123456789'' ch \<noteq> - 1) s
      \<and> (if hd s = CHR ''0'' then s = ''0'' else True) \<and> decimal_value s < 4294967295)"

text \<open>Overwriting a property that exists keeps its place in the enumeration.\<close>

fun replace_property :: "string \<Rightarrow> 'v \<Rightarrow> 'v js_object \<Rightarrow> 'v js_object" where
  "replace_property k v [] = []"
| "replace_property k v ((k', v') # rest) =
     (if k = k' then (k, v) # rest else (k', v') # replace_property k v rest)"

text \<open>
  A new array index goes after the smaller array indices and before everything else.
\<close>

fun insert_index_property :: "string \<Rightarrow> 'v \<Rightarrow> 'v js_object \<Rightarrow> 'v js_object" where
  "insert_index_property k v [] = [(k, v)]"
| "insert_index_property k v ((k', v') # rest) =
     (if is_array_index k' \<and> decimal_value k' < decimal_value k
      then (k', v') # insert_index_property k v rest
      else (k, v) # (k', v') # rest)"

text \<open>
  The assignment \<open>sessions[k] = v\<close> of an object \<open>v\<close> on the Array that
  \<open>Presentable\<close> creates with \<open>var sessions = []\<close>. Assigning an object to
  \<open>length\<close> is a \<open>RangeError\<close> (invalid array length); assigning to
  \<open>__proto__\<close> replaces the prototype and creates no property; any other key becomes,
  or stays, an own enumerable property.
\<close>

definition array_put :: "string \<Rightarrow> 'v \<Rightarrow> 'v js_object \<Rightarrow> js_error + 'v js_object" where
  "array_put k v obj =
     (if k = ''length'' then Inl RangeError
      else if k = ''__proto__'' then Inr obj
      else if k \<in> set (Object_keys obj) then Inr (replace_property k v obj)
      else if is_array_index k then Inr (insert_index_property k v obj)
      else Inr (obj @ [(k, v)]))"

text \<open>
  \<open>Array.prototype.sort\<close> with a comparator: a stable sort (as the language requires
  since ES2019), here by insertion. An element goes before the first element that the
  comparator does not put before it.
\<close>

fun js_insert :: "('a \<Rightarrow> 'a \<Rightarrow> int) \<Rightarrow> 'a \<Rightarrow> 'a list \<Rightarrow> 'a list" where
  "js_insert cmp x [] = [x]"
| "js_insert cmp x (y # ys) =
     (if cmp x y \<le> 0 then x # y # ys else y # js_insert cmp x ys)"

definition js_sort :: "('a \<Rightarrow> 'a \<Rightarrow> int) \<Rightarrow> 'a list \<Rightarrow> 'a list" where
  "js_sort cmp xs = foldr (js_insert cmp) xs []"

definition options :: "string list" where
  "options = [''chat'', ''available'', ''away'', ''dnd'', ''xa'', ''unavailable'']"

text \<open>
  The rank of a presence value: \<open>options.indexOf(v)\<close>, with \<open>-1\<close> replaced by
  \<open>1000\<close> ("move it to the end of the list if it isn't one of our accepted presence
  values").
\<close>

definition priority_index :: "string \<Rightarrow> int" where
  "priority_index v = (let i = indexOf options v in if i = - 1 then 1000 else i)"

text \<open>
  The rank that the comparator computes for a connection id,
  \<open>options.indexOf(params.sessions[a].presence)\<close> with the same replacement. The ids
  come from \<open>Object.keys(params.sessions)\<close>, so the session is always there; the
  branch for a missing session is never taken.
\<close>

definition session_index :: "session js_object \<Rightarrow> string \<Rightarrow> int" where
  "session_index ss a =
     (case map_of ss a of Some s \<Rightarrow> priority_index (presence s) | None \<Rightarrow> 1000)"

definition sorter :: "session js_object \<Rightarrow> string \<Rightarrow> string \<Rightarrow> int" where
  "sorter ss a b =
     (let indexA = session_index ss a; indexB = session_index ss b
      in if indexA < indexB then - 1 else (if indexB < indexA then 1 else 0))"

text \<open>
  \<open>Endpoint.resolvePresence\<close>. The test \<open>connectionIds[0] ? ... : 'unavailable'\<close> is a
  truthiness test: it fails for the empty array and also for an empty first id.
\<close>

definition resolvePresence :: "session js_object \<Rightarrow> js_error + string" where
  "resolvePresence ss =
     (let connectionIds = js_sort (sorter ss) (Object_keys ss) in
      case connectionIds of
        [] \<Rightarrow> Inr ''unavailable''
      | c # _ \<Rightarrow>
          (if c \<noteq> [] then
             (case map_of ss c of Some s \<Rightarrow> Inr (presence s) | None \<Rightarrow> Inl TypeError)
           else Inr ''unavailable''))"

text \<open>
  The closure state of \<open>brightstream.Presentable\<close>: \<open>sessions\<close>, the variable
  \<open>presence\<close> (here \<open>p_presence\<close>), and the trace.
\<close>

record presentable =
  sessions :: "session js_object"
  p_presence :: string
  p_trace :: "effect list"

definition new_Presentable :: presentable where
  "new_Presentable = \<lparr>sessions = [], p_presence = ''unavailable'', p_trace = []\<rparr>"

record setPresence_params =
  sp_presence :: "string option"
  sp_connectionId :: "string option"

definition fire_presence :: "presentable \<Rightarrow> presentable" where
  "fire_presence s = s\<lparr>p_trace := p_trace s @ [Fire ''presence'' (PresencePayload (p_presence s))]\<rparr>"

text \<open>
  \<open>Presentable.setPresence\<close>. The first argument is \<open>that.resolvePresence\<close> when it is
  a function (an \<open>Endpoint\<close> installs \<open>resolvePresence\<close>; a plain \<open>Presentable\<close> and a
  \<open>User\<close> have none). An exception of the assignment to \<open>sessions\<close> or of the
  resolver leaves the function before \<open>fire\<close>.
\<close>

definition setPresence ::
  "(session js_object \<Rightarrow> js_error + string) option \<Rightarrow> setPresence_params \<Rightarrow> presentable
     \<Rightarrow> presentable \<times> js_error option" where
  "setPresence resolver p s =
     (let pres = or_default (sp_presence p) ''available'';
          cid = or_default (sp_connectionId p) ''local''
      in case array_put cid \<lparr>connectionId = cid, presence = pres\<rparr> (sessions s) of
           Inl e \<Rightarrow> (s, Some e)
         | Inr ss \<Rightarrow>
             (let s1 = s\<lparr>sessions := ss\<rparr> in
              case resolver of
                Some f \<Rightarrow>
                  (case f (sessions s1) of
                     Inl e \<Rightarrow> (s1, Some e)
                   | Inr v \<Rightarrow> (fire_presence (s1\<lparr>p_presence := v\<rparr>), None))
              | None \<Rightarrow> (fire_presence (s1\<lparr>p_presence := pres\<rparr>), None)))"

text \<open>
  The presentable that a sequence of \<open>setPresence\<close> invocations leaves, starting from a
  new one.
\<close>

definition presentable_run ::
  "(session js_object \<Rightarrow> js_error + string) option \<Rightarrow> setPresence_params list \<Rightarrow> presentable" where
  "presentable_run resolver ps = foldl (\<lambda>s p. fst (setPresence resolver p s)) new_Presentable ps"

definition ex_sessions_empty_id :: "session js_object" where
  "ex_sessions_empty_id = [([], \<lparr>connectionId = [], presence = ''chat''\<rparr>)]"

definition ex_sessions :: "session js_object" where
  "ex_sessions =
     [(''c1'', \<lparr>connectionId = ''c1'', presence = ''dnd''\<rparr>),
      (''c2'', \<lparr>connectionId = ''c2'', presence = ''busy''\<rparr>),
      (''c3'', \<lparr>connectionId = ''c3'', presence = ''available''\<rparr>)]"

definition ex_presence_params :: setPresence_params where
  "ex_presence_params = \<lparr>sp_presence = Some ''away'', sp_connectionId = Some ''c1''\<rparr>"

definition ex_presence_params_length :: setPresence_params where
  "ex_presence_params_length = \<lparr>sp_presence = Some ''away'', sp_connectionId = Some ''length''\<rparr>"

section \<open>Endpoint: signals and the direct connection\<close>

text \<open>
  The state of a promise made by \<open>makeDeferred\<close>: the first call of \<open>resolve\<close> or
  \<open>reject\<close> settles it, later calls have no effect.
\<close>

datatype promise_state = Pending | Resolved | Rejected js_error

definition settle :: "promise_state \<Rightarrow> promise_state \<Rightarrow> promise_state" where
  "settle new d = (if d = Pending then new else d)"

text \<open>
  The fields of \<open>brightstream.Endpoint\<close> that the operations below use: \<open>that.id\<close>,
  \<open>that.directConnection\<close>, and the trace.
\<close>

record endpoint =
  ep_id :: "string option"
  directConnection :: "ref option"
  e_trace :: "effect list"

definition e_emit :: "effect list \<Rightarrow> endpoint \<Rightarrow> endpoint" where
  "e_emit es e = e\<lparr>e_trace := e_trace e @ es\<rparr>"

record sendSignal_params =
  ss_signal :: "string option"
  ss_connectionId :: "string option"

text \<open>
  \<open>Endpoint.sendSignal\<close>. The second argument is how the signaling channel later
  completes the request: \<open>None\<close> for success, or the error it reports. The result is the
  endpoint with its trace and the final state of the promise that is returned. After
  \<open>deferred.reject\<close> for a missing signal there is no \<open>return\<close>: the function goes on
  to \<open>signalingChannel.sendSignal\<close>.
\<close>

definition sendSignal ::
  "sendSignal_params \<Rightarrow> js_error option \<Rightarrow> endpoint \<Rightarrow> endpoint \<times> promise_state" where
  "sendSignal p completion e =
     (let e1 = e_emit [Log ''debug''
                 ''Endpoint.sendSignal, no support for custom signaling profiles.''] e;
          deferred = Pending;
          deferred1 =
            (if \<not> truthy (ss_signal p)
             then settle (Rejected (Error
                    (''Can'' @ [CHR 0x27] @ ''t send a signal without a '' @ [CHR 0x27]
                       @ ''signal'' @ [CHR 0x27] @ '' paramter.''))) deferred
             else deferred);
          e2 = e_emit [ChannelSendSignal
                 \<lparr>sig_connectionId = ss_connectionId p, sig_signal = ss_signal p\<rparr>] e1;
          deferred2 =
            (case completion of
               None \<Rightarrow> settle Resolved deferred1
             | Some err \<Rightarrow> settle (Rejected err) deferred1)
      in (e2, deferred2))"

text \<open>
  What \<open>getDirectConnection\<close> works on: the local user, on which it publishes
  "direct-connection", the endpoint itself, and the address that the next object
  constructed by \<open>brightstream.DirectConnection(params)\<close> gets.
\<close>

record client =
  cl_user :: user
  cl_endpoint :: endpoint
  cl_fresh :: ref

record getDirectConnection_params =
  gd_initiator :: "bool option"

definition on_endpoint :: "(endpoint \<Rightarrow> endpoint) \<Rightarrow> client \<Rightarrow> client" where
  "on_endpoint f c = c\<lparr>cl_endpoint := f (cl_endpoint c)\<rparr>"

text \<open>
  \<open>Endpoint.getDirectConnection\<close>: the state afterwards and the value returned
  (\<open>None\<close> for \<open>undefined\<close>). The merged connection settings and the open, close and
  message hooks are handed to the constructor and to \<open>accept\<close> and have no part in what
  is modelled here.
\<close>

definition getDirectConnection ::
  "getDirectConnection_params \<Rightarrow> client \<Rightarrow> client \<times> ref option" where
  "getDirectConnection p c =
     (let c0 = on_endpoint (e_emit [Log ''trace'' ''Endpoint.getDirectConnection'']) c in
      case directConnection (cl_endpoint c0) of
        Some dc \<Rightarrow> (c0, Some dc)
      | None \<Rightarrow>
          (let ini = (case gd_initiator p of None \<Rightarrow> Some True | Some b \<Rightarrow> Some b) in
           if \<not> truthy (ep_id (cl_endpoint c0)) then
             (on_endpoint (e_emit [Log ''error''
                 (''Can'' @ [CHR 0x27] @ ''t start a direct connection without endpoint ID!'')]) c0,
              None)
           else
             (let dc = cl_fresh c0;
                  c1 = on_endpoint (\<lambda>e. e_emit [Construct dc] (e\<lparr>directConnection := Some dc\<rparr>))
                         (c0\<lparr>cl_fresh := Suc (cl_fresh c0)\<rparr>);
                  c2 = (if ini = Some True then on_endpoint (e_emit [Accept dc]) c1
                        else
                          (let c1a = c1\<lparr>cl_user := emit [Fire ''direct-connection''
                                        (DirectConnectionPayload dc)] (cl_user c1)\<rparr>
                           in if \<not> hasListeners (cl_user c1a) ''direct-connection''
                              then on_endpoint (e_emit
                                     [Log ''warn''
                                        ''Got an incoming direct connection with no handlers to accept it!'',
                                      Reject dc]) c1a
                              else c1a));
                  c3 = on_endpoint (e_emit [ListenOnce dc ''close'']) c2
              in (c3, Some dc))))"

text \<open>
  The listener for "close" that \<open>getDirectConnection\<close> registers:
  \<open>that.directConnection.ignore(); that.directConnection = undefined\<close>.
\<close>

definition directConnection_closed :: "client \<Rightarrow> client \<times> js_error option" where
  "directConnection_closed c =
     (case directConnection (cl_endpoint c) of
        None \<Rightarrow> (c, Some TypeError)
      | Some dc \<Rightarrow>
          (on_endpoint (\<lambda>e. (e_emit [Ignore dc] e)\<lparr>directConnection := None\<rparr>) c, None))"

definition ex_endpoint :: endpoint where
  "ex_endpoint = \<lparr>ep_id = Some ''bob'', directConnection = None, e_trace = []\<rparr>"

definition ex_client :: client where
  "ex_client = \<lparr>cl_user = new_User, cl_endpoint = ex_endpoint, cl_fresh = 40\<rparr>"

definition ex_no_signal :: sendSignal_params where
  "ex_no_signal = \<lparr>ss_signal = None, ss_connectionId = Some ''c1''\<rparr>"

section \<open>LocalMedia: the shared cache of streams, stop, and muting\<close>

text \<open>
  A \<open>MediaStream\<close> of the media engine, as far as \<open>LocalMedia\<close> uses it: the counter
  \<open>numPc\<close> that \<open>LocalMedia\<close> keeps on the stream object (\<open>None\<close> when the property is
  not a number: \<open>undefined\<close> on a stream that has never been counted, \<open>NaN\<close> after
  arithmetic on \<open>undefined\<close>), whether \<open>stop()\<close> has been called on it, and the
  \<open>enabled\<close> flags of its audio and video tracks.
\<close>

record stream_obj =
  numPc :: "int option"
  stopped :: bool
  audioTracks :: "bool list"
  videoTracks :: "bool list"

text \<open>
  The parts of a constraints object that \<open>LocalMedia\<close> reads or writes: \<open>audio\<close>,
  \<open>video\<close> (a boolean, or an object with \<open>mandatory\<close>, \<open>chromeMediaSource\<close> and
  \<open>mediaSource\<close>), and \<open>fake\<close>.
\<close>

record mandatory_obj =
  chromeMediaSource :: "string option"
  chromeMediaSourceId :: "string option"

datatype video_constraints =
    VideoFlag bool
  | VideoObj (v_mandatory: "mandatory_obj option") (v_chromeMediaSource: "string option")
      (v_mediaSource: "string option")

record media_constraints =
  c_audio :: bool
  c_video :: video_constraints
  c_fake :: "bool option"

text \<open>One element of \<open>respoke.streams\<close>: \<open>{stream: ..., constraints: ...}\<close>.\<close>

record cache_entry =
  ce_stream :: ref
  ce_constraints :: media_constraints

text \<open>
  The state shared by all instances: the array \<open>respoke.streams\<close>, the stream objects,
  \<open>respoke.useFakeMedia\<close> and the platform flags.
\<close>

record media_world =
  streams :: "cache_entry list"
  heap :: "ref \<Rightarrow> stream_obj"
  useFakeMedia :: bool
  isNwjs :: bool
  needsChromeExtension :: bool
  hasChromeExtension :: bool
  needsFirefoxExtension :: bool
  hasFirefoxExtension :: bool

datatype media_effect =
    MLog string string
  | MFire string payload
  | SetTimeout
  | ClearTimeout
  | ChooseDesktopMedia
  | GetUserMedia media_constraints
  | AttachMediaStream ref
  | AddEndedListener ref

text \<open>
  One \<open>LocalMedia\<close> instance: \<open>that.stream\<close>, \<open>that.constraints\<close>, \<open>that.temporary\<close>,
  the promise \<open>deferred\<close>, whether \<open>allowTimer\<close> is armed, and the trace. The element
  that shows the local video is represented by the effect \<open>AttachMediaStream\<close>.
\<close>

record local_media =
  stream :: "ref option"
  constraints :: "media_constraints option"
  temporary :: bool
  deferred :: promise_state
  allowTimer :: bool
  lm_trace :: "media_effect list"

definition m_emit :: "media_effect list \<Rightarrow> local_media \<Rightarrow> local_media" where
  "m_emit es i = i\<lparr>lm_trace := lm_trace i @ es\<rparr>"

definition m_reject :: "string \<Rightarrow> local_media \<Rightarrow> local_media" where
  "m_reject msg i = i\<lparr>deferred := settle (Rejected (Error msg)) (deferred i)\<rparr>"

definition m_resolve :: "local_media \<Rightarrow> local_media" where
  "m_resolve i = i\<lparr>deferred := settle Resolved (deferred i)\<rparr>"

text \<open>
  The normalisation inside \<open>getStream\<close>: on a copy of the cached constraints,
  \<open>delete sConstraints.video.mandatory.chromeMediaSourceId\<close> when that id is truthy.
\<close>

definition strip_sourceId :: "media_constraints \<Rightarrow> media_constraints" where
  "strip_sourceId c =
     (case c_video c of
        VideoObj (Some m) cms ms \<Rightarrow>
          (if truthy (chromeMediaSourceId m)
           then c\<lparr>c_video := VideoObj (Some (m\<lparr>chromeMediaSourceId := None\<rparr>)) cms ms\<rparr>
           else c)
      | _ \<Rightarrow> c)"

text \<open>
  Modelled from the spec: \<open>respoke.isEqual\<close> and \<open>respoke.clone\<close> are not among the
  files; the spec has constraints "normalized by stripping volatile fields before
  equality comparison", so \<open>isEqual\<close> is equality of the values and \<open>clone\<close> a copy.
\<close>

definition isEqual :: "media_constraints \<Rightarrow> media_constraints \<Rightarrow> bool" where
  "isEqual a b = (a = b)"

fun getStream :: "cache_entry list \<Rightarrow> media_constraints \<Rightarrow> ref option" where
  "getStream [] theConstraints = None"
| "getStream (s # rest) theConstraints =
     (if isEqual (strip_sourceId (ce_constraints s)) theConstraints then Some (ce_stream s)
      else getStream rest theConstraints)"

text \<open>
  \<open>removeStream\<close>: the loop finds the first index whose constraints are equal to the
  given ones, without the normalisation of \<open>getStream\<close>; \<open>splice(toRemoveIndex, 1)\<close>
  removes that one element.
\<close>

fun toRemoveIndex :: "cache_entry list \<Rightarrow> media_constraints \<Rightarrow> nat option" where
  "toRemoveIndex [] theConstraints = None"
| "toRemoveIndex (s # rest) theConstraints =
     (if isEqual (ce_constraints s) theConstraints then Some 0
      else map_option Suc (toRemoveIndex rest theConstraints))"

definition removeStream :: "cache_entry list \<Rightarrow> media_constraints \<Rightarrow> cache_entry list" where
  "removeStream ss theConstraints =
     (case toRemoveIndex ss theConstraints of
        None \<Rightarrow> ss
      | Some i \<Rightarrow> take i ss @ drop (Suc i) ss)"


definition upd_stream :: "ref \<Rightarrow> (stream_obj \<Rightarrow> stream_obj) \<Rightarrow> media_world \<Rightarrow> media_world" where
  "upd_stream r f w = w\<lparr>heap := (heap w)(r := f (heap w r))\<rparr>"

text \<open>
  \<open>onReceiveUserMedia\<close>, the success callback of \<open>getUserMedia\<close>, also called directly
  by \<open>requestMedia\<close> with a cached stream. It is only ever called after
  \<open>requestMedia\<close> has found \<open>that.constraints\<close> present. The cache entry it pushes
  holds the instance's constraints object itself; nothing below mutates that object
  after the push, so the entry is modelled as holding its value.
\<close>

definition onReceiveUserMedia ::
  "ref \<Rightarrow> media_world \<times> local_media \<Rightarrow> media_world \<times> local_media" where
  "onReceiveUserMedia theStream st =
     (let w = fst st;
          i1 = m_emit [ClearTimeout, MFire ''allow'' NoPayload,
                       MLog ''debug'' ''User gave permission to use media.'',
                       MLog ''debug'' ''onReceiveUserMedia'']
                 ((snd st)\<lparr>stream := Some theStream, allowTimer := False\<rparr>)
      in case constraints i1 of
           None \<Rightarrow> (w, i1)
         | Some c \<Rightarrow>
             (case getStream (streams w) c of
                Some aStream \<Rightarrow>
                  (upd_stream aStream (\<lambda>s. s\<lparr>numPc := map_option (\<lambda>n. n + 1) (numPc s)\<rparr>) w,
                   m_resolve (m_emit [AttachMediaStream theStream, AddEndedListener aStream] i1))
              | None \<Rightarrow>
                  ((upd_stream theStream (\<lambda>s. s\<lparr>numPc := Some 1\<rparr>) w)
                     \<lparr>streams := streams w @ [\<lparr>ce_stream = theStream, ce_constraints = c\<rparr>]\<rparr>,
                   m_resolve (m_emit [AttachMediaStream theStream, AddEndedListener theStream] i1))))"

definition requestingScreenShare :: "media_constraints \<Rightarrow> bool" where
  "requestingScreenShare c =
     (case c_video c of
        VideoFlag b \<Rightarrow> False
      | VideoObj m cms ms \<Rightarrow>
          (case m of None \<Rightarrow> False | Some mo \<Rightarrow> truthy (chromeMediaSource mo))
          \<or> truthy cms \<or> truthy ms)"

text \<open>
  The constraints that \<open>requestMedia\<close> works with:
  \<open>if (respoke.useFakeMedia === true) { that.constraints.fake = true; }\<close>.
\<close>

definition requested_constraints :: "media_world \<Rightarrow> media_constraints \<Rightarrow> media_constraints" where
  "requested_constraints w c = (if useFakeMedia w then c\<lparr>c_fake := Some True\<rparr> else c)"

text \<open>
  \<open>that.constraints.video.mandatory.chromeMediaSourceId = params.sourceId\<close>, on a
  \<open>video\<close> object with \<open>mandatory\<close>.
\<close>

definition with_sourceId ::
  "string option \<Rightarrow> mandatory_obj \<Rightarrow> string option \<Rightarrow> string option \<Rightarrow> media_constraints
     \<Rightarrow> media_constraints" where
  "with_sourceId sourceId m cms ms c =
     c\<lparr>c_video := VideoObj (Some (m\<lparr>chromeMediaSourceId := sourceId\<rparr>)) cms ms\<rparr>"

text \<open>
  \<open>requestMedia\<close>, up to the point where it hands over to the source chooser or to the
  media engine; their answers arrive later through \<open>desktopMediaChosen\<close> and
  \<open>onReceiveUserMedia\<close> (a refusal of the engine, which only rejects the promise,
  is not needed below).
\<close>

definition requestMedia :: "media_world \<times> local_media \<Rightarrow> media_world \<times> local_media" where
  "requestMedia st =
     (let w = fst st; i = snd st in
      case constraints i of
        None \<Rightarrow> (w, m_reject ''No constraints.'' i)
      | Some c \<Rightarrow>
          (let c1 = requested_constraints w c;
               i1 = i\<lparr>constraints := Some c1\<rparr>
           in case getStream (streams w) c1 of
                Some theStream \<Rightarrow>
                  onReceiveUserMedia theStream (w, m_emit [MLog ''debug'' ''using old stream''] i1)
              | None \<Rightarrow>
                  (let i2 = m_emit [SetTimeout] (i1\<lparr>allowTimer := True\<rparr>) in
                   if requestingScreenShare c1 then
                     (if isNwjs w \<or> (needsChromeExtension w \<and> hasChromeExtension w) then
                        (w, m_emit [ChooseDesktopMedia] i2)
                      else if needsFirefoxExtension w \<and> hasFirefoxExtension w then
                        (w, m_emit [MLog ''debug'' ''Running getUserMedia with constraints'',
                                    GetUserMedia c1] i2)
                      else
                        (w, m_reject ''Screen sharing not implemented on this platform yet.'' i2))
                   else
                     (w, m_emit [MLog ''debug'' ''Running getUserMedia with constraints'',
                                 GetUserMedia c1] i2))))"


definition start :: "media_world \<times> local_media \<Rightarrow> media_world \<times> local_media" where
  "start st =
     (if temporary (snd st) then (fst st, m_reject ''Temporary local media started!'' (snd st))
      else requestMedia st)"


text \<open>
  \<open>isVideoMuted\<close> and \<open>isAudioMuted\<close>: \<open>undefined\<close> (\<open>None\<close>) without a stream or
  without a track of the type, else whether every track of the type is disabled.
\<close>

definition isVideoMuted :: "media_world \<times> local_media \<Rightarrow> bool option" where
  "isVideoMuted st =
     (case stream (snd st) of
        None \<Rightarrow> None
      | Some r \<Rightarrow>
          (if videoTracks (heap (fst st) r) = [] then None
           else Some (list_all (\<lambda>enabled. \<not> enabled) (videoTracks (heap (fst st) r)))))"

definition isAudioMuted :: "media_world \<times> local_media \<Rightarrow> bool option" where
  "isAudioMuted st =
     (case stream (snd st) of
        None \<Rightarrow> None
      | Some r \<Rightarrow>
          (if audioTracks (heap (fst st) r) = [] then None
           else Some (list_all (\<lambda>enabled. \<not> enabled) (audioTracks (heap (fst st) r)))))"

text \<open>
  The four muting operations. \<open>if (that.isVideoMuted()) return\<close> lets \<open>undefined\<close>
  through; \<open>if (!that.isVideoMuted()) return\<close> returns on \<open>undefined\<close>. Going on
  without a stream is a \<open>TypeError\<close> at \<open>that.stream.getVideoTracks()\<close>.
\<close>

definition muteVideo ::
  "media_world \<times> local_media \<Rightarrow> (media_world \<times> local_media) \<times> js_error option" where
  "muteVideo st =
     (if isVideoMuted st = Some True then (st, None)
      else
        (case stream (snd st) of
           None \<Rightarrow> (st, Some TypeError)
         | Some r \<Rightarrow>
             ((upd_stream r (\<lambda>s. s\<lparr>videoTracks := map (\<lambda>track. False) (videoTracks s)\<rparr>) (fst st),
               m_emit [MFire ''mute'' (MutePayload ''video'' True)] (snd st)), None)))"

definition unmuteVideo ::
  "media_world \<times> local_media \<Rightarrow> (media_world \<times> local_media) \<times> js_error option" where
  "unmuteVideo st =
     (if isVideoMuted st \<noteq> Some True then (st, None)
      else
        (case stream (snd st) of
           None \<Rightarrow> (st, Some TypeError)
         | Some r \<Rightarrow>
             ((upd_stream r (\<lambda>s. s\<lparr>videoTracks := map (\<lambda>track. True) (videoTracks s)\<rparr>) (fst st),
               m_emit [MFire ''mute'' (MutePayload ''video'' False)] (snd st)), None)))"

definition muteAudio ::
  "media_world \<times> local_media \<Rightarrow> (media_world \<times> local_media) \<times> js_error option" where
  "muteAudio st =
     (if isAudioMuted st = Some True then (st, None)
      else
        (case stream (snd st) of
           None \<Rightarrow> (st, Some TypeError)
         | Some r \<Rightarrow>
             ((upd_stream r (\<lambda>s. s\<lparr>audioTracks := map (\<lambda>track. False) (audioTracks s)\<rparr>) (fst st),
               m_emit [MFire ''mute'' (MutePayload ''audio'' True)] (snd st)), None)))"

definition unmuteAudio ::
  "media_world \<times> local_media \<Rightarrow> (media_world \<times> local_media) \<times> js_error option" where
  "unmuteAudio st =
     (if isAudioMuted st \<noteq> Some True then (st, None)
      else
        (case stream (snd st) of
           None \<Rightarrow> (st, Some TypeError)
         | Some r \<Rightarrow>
             ((upd_stream r (\<lambda>s. s\<lparr>audioTracks := map (\<lambda>track. True) (audioTracks s)\<rparr>) (fst st),
               m_emit [MFire ''mute'' (MutePayload ''audio'' False)] (snd st)), None)))"

text \<open>Concrete constraints, streams and instances.\<close>

definition ex_constraints :: media_constraints where
  "ex_constraints = \<lparr>c_audio = True, c_video = VideoFlag True, c_fake = None\<rparr>"

definition ex_new_stream :: stream_obj where
  "ex_new_stream = \<lparr>numPc = None, stopped = False, audioTracks = [True], videoTracks = [True]\<rparr>"

definition ex_world :: media_world where
  "ex_world = \<lparr>streams = [], heap = (\<lambda>r. ex_new_stream), useFakeMedia = False, isNwjs = False,
      needsChromeExtension = False, hasChromeExtension = False,
      needsFirefoxExtension = False, hasFirefoxExtension = False\<rparr>"

definition ex_instance :: local_media where
  "ex_instance = \<lparr>stream = None, constraints = Some ex_constraints, temporary = False,
      deferred = Pending, allowTimer = False, lm_trace = []\<rparr>"

text \<open>
  The world and the instance after the instance has started with \<open>ex_constraints\<close>
  and the engine has granted it the stream at address 1.
\<close>

definition ex_live :: "media_world \<times> local_media" where
  "ex_live = onReceiveUserMedia 1 (start (ex_world, ex_instance))"


text \<open>An instance with a live stream that has one audio track and no video track.\<close>

definition ex_audio_only :: "media_world \<times> local_media" where
  "ex_audio_only =
     (ex_world\<lparr>heap := (\<lambda>r. ex_new_stream\<lparr>numPc := Some 1, videoTracks := []\<rparr>)\<rparr>,
      ex_instance\<lparr>stream := Some 1\<rparr>)"

text \<open>An instance with a live stream whose two video tracks differ: one enabled, one not.\<close>

definition ex_mixed_video :: "media_world \<times> local_media" where
  "ex_mixed_video =
     (ex_world\<lparr>heap := (\<lambda>r. ex_new_stream\<lparr>numPc := Some 1, videoTracks := [True, False]\<rparr>)\<rparr>,
      ex_instance\<lparr>stream := Some 1\<rparr>)"




section \<open>Properties of the user operations and of the other components\<close>

subsection \<open>The loop of removeCall\<close>

lemma takeWhile_snoc_fail:
  "\<not> P x \<Longrightarrow> takeWhile P (xs @ [x]) = takeWhile P xs"
  by (induction xs) auto

lemma takeWhile_all_sym:
  "\<forall>x \<in> set xs. P x \<Longrightarrow> xs = takeWhile P xs"
  by (induction xs) auto

text \<open>
  Running the loop downwards from index \<open>n - 1\<close> truncates the array at the lowest
  matching index below \<open>n\<close>, and never reads beyond the end.
\<close>

lemma removeCall_loop_char:
  "n \<le> length cs \<Longrightarrow>
   removeCall_loop objs p n cs m =
     (if \<exists>c \<in> set (take n cs). matches objs p c
      then (takeWhile (\<lambda>c. \<not> matches objs p c) (take n cs), True, None)
      else (cs, m, None))"
proof (induction n arbitrary: cs m)
  case 0
  then show ?case by simp
next
  case (Suc n)
  then have lt: "n < length cs" by simp
  have tk: "take (Suc n) cs = take n cs @ [cs ! n]"
    using lt by (simp add: take_Suc_conv_app_nth)
  show ?case
  proof (cases "matches objs p (cs ! n)")
    case True
    have "removeCall_loop objs p (Suc n) cs m = removeCall_loop objs p n (take n cs) True"
      using lt True by simp
    also have "\<dots> = (if \<exists>c \<in> set (take n cs). matches objs p c
                      then (takeWhile (\<lambda>c. \<not> matches objs p c) (take n cs), True, None)
                      else (take n cs, True, None))"
      using Suc.IH [of "take n cs" True] lt by simp
    also have "\<dots> = (takeWhile (\<lambda>c. \<not> matches objs p c) (take n cs), True, None)"
      by (auto intro: takeWhile_all_sym)
    finally show ?thesis
      using True tk by (simp add: takeWhile_snoc_fail)
  next
    case False
    have "removeCall_loop objs p (Suc n) cs m = removeCall_loop objs p n cs m"
      using lt False by simp
    also have "\<dots> = (if \<exists>c \<in> set (take n cs). matches objs p c
                      then (takeWhile (\<lambda>c. \<not> matches objs p c) (take n cs), True, None)
                      else (cs, m, None))"
      using Suc.IH [of cs m] lt by simp
    finally show ?thesis
      using False tk by (auto simp: takeWhile_append1 takeWhile_append2)
  qed
qed

lemma removeCall_loop_all:
  "removeCall_loop objs p (length cs) cs False =
     (takeWhile (\<lambda>c. \<not> matches objs p c) cs, \<exists>c \<in> set cs. matches objs p c, None)"
  using removeCall_loop_char [of "length cs" cs objs p False]
  by (auto intro: takeWhile_all_sym)

lemma removeCall_valid:
  assumes "truthy (rc_id p) \<or> rc_call p \<noteq> None"
  shows "removeCall objs (Some p) u =
           (if \<exists>c \<in> set (calls u). matches objs p c
            then u\<lparr>calls := takeWhile (\<lambda>c. \<not> matches objs p c) (calls u)\<rparr>
            else emit [Log ''warn'' ''No call removed.''] u, None)"
proof -
  have "\<forall>c \<in> set (calls u). \<not> matches objs p c \<Longrightarrow>
          takeWhile (\<lambda>c. \<not> matches objs p c) (calls u) = calls u"
    by simp
  then show ?thesis
    using assms by (auto simp: removeCall_def removeCall_loop_all emit_def)
qed

lemma takeWhile_before_index:
  assumes "i < length xs" "\<not> P (xs ! i)"
  shows "length (takeWhile P xs) \<le> i"
proof (rule ccontr)
  assume "\<not> length (takeWhile P xs) \<le> i"
  then have "i < length (takeWhile P xs)" by simp
  then have "P (takeWhile P xs ! i)" by (meson nth_mem set_takeWhileD)
  moreover have "takeWhile P xs ! i = xs ! i"
    using \<open>i < length (takeWhile P xs)\<close> by (rule takeWhile_nth)
  ultimately show False using assms by simp
qed

text \<open>
  C2. For every active-call collection and every \<open>removeCall\<close> invocation that gives an
  id or a call, the collection that the backward scan leaves is the part of the old
  collection before its first matching entry: a matched entry is removed together with
  every entry after it (the result is a prefix that ends at or before the matched
  index). If no entry matches, the collection is unchanged and the warning
  "No call removed." is logged.
\<close>

theorem removeCall_truncates:
  assumes "truthy (rc_id p) \<or> rc_call p \<noteq> None"
  shows "removeCall objs (Some p) u =
           (if \<exists>c \<in> set (calls u). matches objs p c
            then u\<lparr>calls := takeWhile (\<lambda>c. \<not> matches objs p c) (calls u)\<rparr>
            else emit [Log ''warn'' ''No call removed.''] u, None)
         \<and> (\<forall>i < length (calls u). matches objs p (calls u ! i) \<longrightarrow>
              (\<exists>j \<le> i. calls (fst (removeCall objs (Some p) u)) = take j (calls u)))
         \<and> ((\<forall>c \<in> set (calls u). \<not> matches objs p c) \<longrightarrow>
              calls (fst (removeCall objs (Some p) u)) = calls u
              \<and> u_trace (fst (removeCall objs (Some p) u)) = u_trace u @ [Log ''warn'' ''No call removed.''])"
proof (intro conjI allI impI)
  show eq: "removeCall objs (Some p) u =
           (if \<exists>c \<in> set (calls u). matches objs p c
            then u\<lparr>calls := takeWhile (\<lambda>c. \<not> matches objs p c) (calls u)\<rparr>
            else emit [Log ''warn'' ''No call removed.''] u, None)"
    using assms by (rule removeCall_valid)
  {
    fix i assume i: "i < length (calls u)" and m: "matches objs p (calls u ! i)"
    let ?P = "\<lambda>c. \<not> matches objs p c"
    have ex: "\<exists>c \<in> set (calls u). matches objs p c"
      using i m nth_mem by blast
    have len: "length (takeWhile ?P (calls u)) \<le> i"
      using i m by (intro takeWhile_before_index) simp_all
    have tw: "takeWhile ?P (calls u) = take (length (takeWhile ?P (calls u))) (calls u)"
      by (rule takeWhile_eq_take)
    have "removeCall objs (Some p) u = (u\<lparr>calls := takeWhile ?P (calls u)\<rparr>, None)"
      using eq ex by simp
    then have "calls (fst (removeCall objs (Some p) u)) = takeWhile ?P (calls u)"
      by simp
    then have "calls (fst (removeCall objs (Some p) u)) = take (length (takeWhile ?P (calls u))) (calls u)"
      using tw by simp
    with len show "\<exists>j \<le> i. calls (fst (removeCall objs (Some p) u)) = take j (calls u)"
      by blast
  }
  {
    assume "\<forall>c \<in> set (calls u). \<not> matches objs p c"
    with eq show "calls (fst (removeCall objs (Some p) u)) = calls u" by (simp add: emit_def)
  }
  {
    assume "\<forall>c \<in> set (calls u). \<not> matches objs p c"
    with eq show "u_trace (fst (removeCall objs (Some p) u)) = u_trace u @ [Log ''warn'' ''No call removed.'']"
      by (simp add: emit_def)
  }
qed

text \<open>
  The scenario of the specification: \<open>removeCall({id: "X"})\<close> on the collection
  \<open>[A(id = X), B, C]\<close> empties it; removing \<open>B\<close> by id, or by reference, also
  removes \<open>C\<close>; an id that no call has leaves the collection alone and logs the
  warning.
\<close>

theorem removeCall_truncates_witness:
  "removeCall ex_call_objs (Some \<lparr>rc_id = Some ''X'', rc_call = None\<rparr>) ex_user_ABC
     = (ex_user_ABC\<lparr>calls := []\<rparr>, None)
   \<and> removeCall ex_call_objs (Some \<lparr>rc_id = Some ''B'', rc_call = None\<rparr>) ex_user_ABC
     = (ex_user_ABC\<lparr>calls := [1]\<rparr>, None)
   \<and> removeCall ex_call_objs (Some \<lparr>rc_id = None, rc_call = Some 2\<rparr>) ex_user_ABC
     = (ex_user_ABC\<lparr>calls := [1]\<rparr>, None)
   \<and> removeCall ex_call_objs (Some \<lparr>rc_id = Some ''Z'', rc_call = None\<rparr>) ex_user_ABC
     = (ex_user_ABC\<lparr>u_trace := [Log ''warn'' ''No call removed.'']\<rparr>, None)"
  using removeCall_truncates [of "\<lparr>rc_id = Some ''X'', rc_call = None\<rparr>" ex_call_objs ex_user_ABC]
        removeCall_truncates [of "\<lparr>rc_id = Some ''B'', rc_call = None\<rparr>" ex_call_objs ex_user_ABC]
        removeCall_truncates [of "\<lparr>rc_id = None, rc_call = Some 2\<rparr>" ex_call_objs ex_user_ABC]
        removeCall_truncates [of "\<lparr>rc_id = Some ''Z'', rc_call = None\<rparr>" ex_call_objs ex_user_ABC]
  by (simp add: truthy_def matches_def ex_call_objs_def ex_user_ABC_def emit_def)

text \<open>
  Given a parameter object with neither an id nor a call, \<open>removeCall\<close> throws the
  error "Must specify endpointId of Call to remove or the call itself." before it
  touches anything.
\<close>

lemma removeCall_empty_params:
  assumes "\<not> truthy (rc_id p)" and "rc_call p = None"
  shows "removeCall objs (Some p) u =
           (u, Some (Error ''Must specify endpointId of Call to remove or the call itself.''))"
  using assms by (simp add: removeCall_def)

text \<open>
  C10 does not hold of the code. Invoked without any argument, the plainest way to give
  neither an id nor a call, \<open>removeCall\<close> does not reach its own check: reading
  \<open>params.id\<close> throws a \<open>TypeError\<close> instead of the error with the message. The
  collection of active calls is left as it was, as it is when an empty parameter object
  is given and the check throws.
\<close>

theorem removeCall_without_argument_throws_TypeError:
  "removeCall ex_call_objs None ex_user_ABC = (ex_user_ABC, Some TypeError)
   \<and> removeCall ex_call_objs (Some \<lparr>rc_id = None, rc_call = None\<rparr>) ex_user_ABC =
       (ex_user_ABC, Some (Error ''Must specify endpointId of Call to remove or the call itself.''))
   \<and> TypeError \<noteq> Error ''Must specify endpointId of Call to remove or the call itself.''"
  by (simp add: removeCall_def truthy_def)

subsection \<open>addCall\<close>

lemma addCall_distinct: "distinct (calls u) \<Longrightarrow> distinct (calls (addCall objs p u))"
  by (simp add: addCall_def Let_def emit_def)

lemma addCall_present: "ac_call p \<in> set (calls u) \<Longrightarrow> addCall objs p u = u"
  by (simp add: addCall_def)

lemma removeCall_calls:
  "calls (fst (removeCall objs (Some p) u)) = calls u \<or>
   calls (fst (removeCall objs (Some p) u)) = takeWhile (\<lambda>c. \<not> matches objs p c) (calls u)"
  by (simp add: removeCall_def removeCall_loop_all emit_def)

lemma removeCall_distinct:
  "distinct (calls u) \<Longrightarrow> distinct (calls (fst (removeCall objs params u)))"
proof (cases params)
  case None
  assume "distinct (calls u)"
  then show ?thesis using None by (simp add: removeCall_def)
next
  case (Some p)
  assume "distinct (calls u)"
  then show ?thesis
    using removeCall_calls [of objs p u] Some by (auto simp: distinct_takeWhile)
qed

lemma user_step_distinct: "distinct (calls u) \<Longrightarrow> distinct (calls (user_step objs u x))"
  by (cases x) (simp_all add: addCall_distinct removeCall_distinct listen_def)

lemma foldl_user_step_distinct:
  "distinct (calls u) \<Longrightarrow> distinct (calls (foldl (user_step objs) u ops))"
  by (induction ops arbitrary: u) (simp_all add: user_step_distinct)

text \<open>
  C9. After every sequence of \<open>addCall\<close> invocations on a new user (also when
  \<open>removeCall\<close> invocations and listener registrations come in between), no call
  reference occurs twice in the collection of active calls; one \<open>addCall\<close> keeps a
  duplicate-free collection duplicate-free, and it skips a reference that is already
  present, leaving the user as it was.
\<close>

theorem addCall_never_duplicates:
  "distinct (calls (user_run objs ops))
   \<and> (distinct (calls u) \<longrightarrow> distinct (calls (addCall objs p u)))
   \<and> (ac_call p \<in> set (calls u) \<longrightarrow> addCall objs p u = u)"
proof (intro conjI impI)
  have "distinct (calls new_User)" by (simp add: new_User_def)
  then show "distinct (calls (user_run objs ops))"
    unfolding user_run_def by (rule foldl_user_step_distinct)
next
  assume "distinct (calls u)"
  then show "distinct (calls (addCall objs p u))" by (rule addCall_distinct)
next
  assume "ac_call p \<in> set (calls u)"
  then show "addCall objs p u = u" by (rule addCall_present)
qed

theorem addCall_never_duplicates_witness:
  "calls (user_run ex_call_objs [AddCall ex_incoming, AddCall ex_incoming,
      Listen ''call'' 0, AddCall ex_incoming, AddCall \<lparr>ac_call = 2, ac_endpoint = None\<rparr>,
      AddCall ex_incoming]) = [1, 2]
   \<and> distinct [1, 2 :: ref]"
  using addCall_never_duplicates [of ex_call_objs "[AddCall ex_incoming, AddCall ex_incoming,
      Listen ''call'' 0, AddCall ex_incoming, AddCall \<lparr>ac_call = 2, ac_endpoint = None\<rparr>,
      AddCall ex_incoming]" new_User ex_incoming]
  by (simp add: user_run_def new_User_def addCall_def ex_incoming_def ex_call_objs_def
      truthy_flag_def hasListeners_def emit_def listen_def)

text \<open>
  C1, as stated, fails: a call with \<open>initiator === false\<close> added to a new user
  without any listener is still in the collection of active calls when \<open>addCall\<close>
  returns, because the push comes before the check.
\<close>

theorem addCall_unanswered_call_stays_registered:
  "initiator (ex_call_objs (ac_call ex_incoming)) = Some False
   \<and> \<not> hasListeners new_User ''call''
   \<and> ac_call ex_incoming \<in> set (calls (addCall ex_call_objs ex_incoming new_User))"
  by (simp add: addCall_def ex_incoming_def ex_call_objs_def new_User_def
      truthy_flag_def hasListeners_def emit_def)

text \<open>
  C1, amended. For every call of class \<open>brightstream.Call\<close> that is not yet in the
  collection, passed to \<open>addCall\<close> with \<open>initiator === false\<close> while the user has no
  listener for "call": \<open>addCall\<close> appends the call to the collection, logs a warning and
  rejects the call, and publishes no "call" notification; when \<open>addCall\<close> returns the
  call is the last entry of the collection.
\<close>

theorem addCall_rejects_unanswered_incoming_call:
  assumes "ac_call p \<notin> set (calls u)"
    and "className (objs (ac_call p)) = ''brightstream.Call''"
    and "initiator (objs (ac_call p)) = Some False"
    and "\<not> hasListeners u ''call''"
  shows "addCall objs p u =
           u\<lparr>calls := calls u @ [ac_call p],
             u_trace := u_trace u @
               [Log ''warn'' ''Got an incoming call with no handlers to accept it!'',
                Reject (ac_call p)]\<rparr>"
  using assms by (simp add: addCall_def Let_def truthy_flag_def hasListeners_def emit_def)

theorem addCall_rejects_unanswered_incoming_call_witness:
  "addCall ex_call_objs ex_incoming new_User =
     \<lparr>calls = [1], listeners = [],
      u_trace = [Log ''warn'' ''Got an incoming call with no handlers to accept it!'', Reject 1]\<rparr>"
  using addCall_rejects_unanswered_incoming_call [of ex_incoming new_User ex_call_objs]
  by (simp add: ex_incoming_def ex_call_objs_def new_User_def hasListeners_def)

subsection \<open>Sorting by priority and resolvePresence\<close>

lemma js_insert_set: "set (js_insert cmp x ys) = insert x (set ys)"
  by (induction ys) auto

lemma js_sort_set: "set (js_sort cmp xs) = set xs"
  by (induction xs) (simp_all add: js_sort_def js_insert_set)

lemma js_insert_hd_min:
  assumes "\<forall>a b. (cmp a b \<le> 0) = (key a \<le> key b)"
    and "\<forall>y \<in> set ys. key (hd ys) \<le> key y"
  shows "\<forall>y \<in> set (js_insert cmp x ys). key (hd (js_insert cmp x ys)) \<le> (key y :: int)"
proof (cases ys)
  case Nil
  then show ?thesis by simp
next
  case (Cons y ys')
  show ?thesis
  proof (cases "cmp x y \<le> 0")
    case True
    then have "key x \<le> key y" using assms(1) by simp
    then show ?thesis using True Cons assms(2) by auto
  next
    case False
    then have "key y \<le> key x" using assms(1) by (metis linear)
    then show ?thesis using False Cons assms(2) by (auto simp: js_insert_set)
  qed
qed

lemma js_sort_hd_min:
  assumes "\<forall>a b. (cmp a b \<le> 0) = (key a \<le> key b)"
  shows "\<forall>y \<in> set (js_sort cmp xs). key (hd (js_sort cmp xs)) \<le> (key y :: int)"
proof (induction xs)
  case Nil
  then show ?case by (simp add: js_sort_def)
next
  case (Cons x xs)
  have "js_sort cmp (x # xs) = js_insert cmp x (js_sort cmp xs)"
    by (simp add: js_sort_def)
  then show ?case using js_insert_hd_min [OF assms Cons.IH] by simp
qed

lemma sorter_le: "(sorter ss a b \<le> 0) = (session_index ss a \<le> session_index ss b)"
  by (auto simp: sorter_def Let_def)

lemma map_of_keys: "k \<in> set (Object_keys ss) \<Longrightarrow> \<exists>s. map_of ss k = Some s"
  by (induction ss) (auto simp: Object_keys_def)

lemma keys_of_map_of: "map_of ss k = Some s \<Longrightarrow> k \<in> set (Object_keys ss)"
  by (auto simp: Object_keys_def dest: map_of_SomeD intro: rev_image_eqI)

lemma resolvePresence_empty: "resolvePresence [] = Inr ''unavailable''"
  by (simp add: resolvePresence_def Object_keys_def js_sort_def)

lemma resolvePresence_head:
  assumes "ss \<noteq> []"
  shows "\<exists>c s. c \<in> set (Object_keys ss) \<and> map_of ss c = Some s
           \<and> (\<forall>k \<in> set (Object_keys ss). session_index ss c \<le> session_index ss k)
           \<and> resolvePresence ss = Inr (if c \<noteq> [] then presence s else ''unavailable'')"
proof -
  let ?sorted = "js_sort (sorter ss) (Object_keys ss)"
  have ne: "?sorted \<noteq> []"
    using assms js_sort_set [of "sorter ss" "Object_keys ss"]
    by (cases ss) (auto simp: Object_keys_def)
  then obtain c rest where srt: "?sorted = c # rest" by (cases ?sorted) auto
  have cin: "c \<in> set (Object_keys ss)"
    using js_sort_set [of "sorter ss" "Object_keys ss"] srt by auto
  then obtain s where s: "map_of ss c = Some s" using map_of_keys by blast
  have "\<forall>y \<in> set ?sorted. session_index ss (hd ?sorted) \<le> session_index ss y"
    by (rule js_sort_hd_min) (simp add: sorter_le)
  then have "\<forall>y \<in> set ?sorted. session_index ss c \<le> session_index ss y"
    using srt by simp
  then have min: "\<forall>k \<in> set (Object_keys ss). session_index ss c \<le> session_index ss k"
    by (simp only: js_sort_set)
  have "resolvePresence ss = Inr (if c \<noteq> [] then presence s else ''unavailable'')"
    using srt s by (simp add: resolvePresence_def)
  with cin s min show ?thesis by blast
qed

lemma resolvePresence_total: "\<exists>v. resolvePresence ss = Inr v"
proof (cases "ss = []")
  case True
  then show ?thesis by (simp add: resolvePresence_empty)
next
  case False
  from resolvePresence_head [OF False] show ?thesis by blast
qed

lemma resolvePresence_min:
  assumes "[] \<notin> set (Object_keys ss)"
  shows "\<exists>v. resolvePresence ss = Inr v
           \<and> (\<forall>k s. map_of ss k = Some s \<longrightarrow> priority_index v \<le> priority_index (presence s))
           \<and> (ss \<noteq> [] \<longrightarrow> (\<exists>k s. map_of ss k = Some s \<and> v = presence s))
           \<and> (ss = [] \<longrightarrow> v = ''unavailable'')"
proof (cases "ss = []")
  case True
  then show ?thesis by (simp add: resolvePresence_empty)
next
  case False
  from resolvePresence_head [OF False] obtain c s where
    cin: "c \<in> set (Object_keys ss)" and s: "map_of ss c = Some s"
    and min: "\<forall>k \<in> set (Object_keys ss). session_index ss c \<le> session_index ss k"
    and res: "resolvePresence ss = Inr (if c \<noteq> [] then presence s else ''unavailable'')"
    by blast
  have cne: "c \<noteq> []" using cin assms by auto
  have "priority_index (presence s) \<le> priority_index (presence s')"
    if "map_of ss k = Some s'" for k s'
  proof -
    have "k \<in> set (Object_keys ss)" using that by (rule keys_of_map_of)
    then have "session_index ss c \<le> session_index ss k" using min by simp
    then show ?thesis using s that by (simp add: session_index_def)
  qed
  then show ?thesis using res cne s False by auto
qed

subsection \<open>The sessions that setPresence builds\<close>

lemma or_default_nonempty: "d \<noteq> [] \<Longrightarrow> or_default v d \<noteq> []"
  by (simp add: or_default_def split: option.splits)

lemma keys_replace_property: "map fst (replace_property k v obj) = map fst obj"
  by (induction obj) auto

lemma set_insert_index_property:
  "set (insert_index_property k v obj) = insert (k, v) (set obj)"
proof (induction obj)
  case Nil
  show ?case by simp
next
  case (Cons e obj)
  obtain k' v' where e: "e = (k', v')" by (cases e)
  show ?case
  proof (cases "is_array_index k' \<and> decimal_value k' < decimal_value k")
    case True
    then show ?thesis using Cons.IH e by auto
  next
    case False
    then show ?thesis using e by auto
  qed
qed

lemma keys_array_put:
  assumes "array_put k v obj = Inr obj'"
  shows "set (Object_keys obj') \<subseteq> insert k (set (Object_keys obj))"
proof -
  have "obj' = obj \<or> obj' = replace_property k v obj \<or> obj' = insert_index_property k v obj
        \<or> obj' = obj @ [(k, v)]"
    using assms by (auto simp: array_put_def split: if_splits)
  then show ?thesis
    unfolding Object_keys_def
    by (elim disjE) (auto simp: keys_replace_property set_insert_index_property)
qed

lemma array_put_ok: "k \<noteq> ''length'' \<Longrightarrow> \<exists>obj'. array_put k v obj = Inr obj'"
  by (simp add: array_put_def)

lemma sessions_setPresence:
  "sessions (fst (setPresence resolver p s)) = sessions s \<or>
   array_put (or_default (sp_connectionId p) ''local'')
     \<lparr>connectionId = or_default (sp_connectionId p) ''local'',
      presence = or_default (sp_presence p) ''available''\<rparr> (sessions s)
     = Inr (sessions (fst (setPresence resolver p s)))"
  by (auto simp: setPresence_def Let_def fire_presence_def split: sum.splits option.splits)

text \<open>
  \<open>setPresence\<close> stores a session under \<open>params.connectionId || 'local'\<close>, which is
  never the empty string: no presentable holds a session without a connection id.
\<close>

lemma setPresence_ids_nonempty:
  assumes "[] \<notin> set (Object_keys (sessions s))"
  shows "[] \<notin> set (Object_keys (sessions (fst (setPresence resolver p s))))"
proof -
  let ?cid = "or_default (sp_connectionId p) ''local''"
  have ne: "?cid \<noteq> []" by (rule or_default_nonempty) simp
  from sessions_setPresence [of resolver p s] show ?thesis
  proof
    assume "sessions (fst (setPresence resolver p s)) = sessions s"
    then show ?thesis using assms by simp
  next
    assume "array_put ?cid \<lparr>connectionId = ?cid,
      presence = or_default (sp_presence p) ''available''\<rparr> (sessions s)
      = Inr (sessions (fst (setPresence resolver p s)))"
    from keys_array_put [OF this] show ?thesis using assms ne by auto
  qed
qed

lemma foldl_setPresence_ids_nonempty:
  "[] \<notin> set (Object_keys (sessions s)) \<Longrightarrow>
   [] \<notin> set (Object_keys (sessions (foldl (\<lambda>s p. fst (setPresence resolver p s)) s ps)))"
  by (induction ps arbitrary: s) (simp_all add: setPresence_ids_nonempty)

lemma presentable_run_ids_nonempty:
  "[] \<notin> set (Object_keys (sessions (presentable_run resolver ps)))"
  unfolding presentable_run_def
  by (rule foldl_setPresence_ids_nonempty) (simp add: new_Presentable_def Object_keys_def)

text \<open>
  C3. For every map of sessions (no session without a connection id: the ids are
  non-empty strings, as in every map that \<open>setPresence\<close> builds),
  \<open>resolvePresence\<close> returns normally, and the rank of the value it returns in the
  order chat, available, away, dnd, xa, unavailable (a value outside the list ranking
  after all of them, at 1000) is at most the rank of every session's presence value; for
  a non-empty map the value is the presence of one of the sessions, and the empty map
  resolves to "unavailable". This holds in particular of the sessions of a presentable
  after any sequence of \<open>setPresence\<close> invocations.
\<close>

theorem resolvePresence_highest_priority:
  "([] \<notin> set (Object_keys ss) \<longrightarrow>
      (\<exists>v. resolvePresence ss = Inr v
           \<and> (\<forall>k s. map_of ss k = Some s \<longrightarrow> priority_index v \<le> priority_index (presence s))
           \<and> (ss \<noteq> [] \<longrightarrow> (\<exists>k s. map_of ss k = Some s \<and> v = presence s))
           \<and> (ss = [] \<longrightarrow> v = ''unavailable'')))
   \<and> (\<exists>v. resolvePresence (sessions (presentable_run resolver ps)) = Inr v
           \<and> (\<forall>k s. map_of (sessions (presentable_run resolver ps)) k = Some s \<longrightarrow>
                  priority_index v \<le> priority_index (presence s))
           \<and> (sessions (presentable_run resolver ps) \<noteq> [] \<longrightarrow>
                 (\<exists>k s. map_of (sessions (presentable_run resolver ps)) k = Some s
                        \<and> v = presence s))
           \<and> (sessions (presentable_run resolver ps) = [] \<longrightarrow> v = ''unavailable''))"
proof (intro conjI impI)
  assume "[] \<notin> set (Object_keys ss)"
  then show "\<exists>v. resolvePresence ss = Inr v
           \<and> (\<forall>k s. map_of ss k = Some s \<longrightarrow> priority_index v \<le> priority_index (presence s))
           \<and> (ss \<noteq> [] \<longrightarrow> (\<exists>k s. map_of ss k = Some s \<and> v = presence s))
           \<and> (ss = [] \<longrightarrow> v = ''unavailable'')"
    by (rule resolvePresence_min)
next
  have "[] \<notin> set (Object_keys (sessions (presentable_run resolver ps)))"
    by (rule presentable_run_ids_nonempty)
  then show "\<exists>v. resolvePresence (sessions (presentable_run resolver ps)) = Inr v
           \<and> (\<forall>k s. map_of (sessions (presentable_run resolver ps)) k = Some s \<longrightarrow>
                  priority_index v \<le> priority_index (presence s))
           \<and> (sessions (presentable_run resolver ps) \<noteq> [] \<longrightarrow>
                 (\<exists>k s. map_of (sessions (presentable_run resolver ps)) k = Some s
                        \<and> v = presence s))
           \<and> (sessions (presentable_run resolver ps) = [] \<longrightarrow> v = ''unavailable'')"
    by (rule resolvePresence_min)
qed

theorem resolvePresence_highest_priority_witness:
  "[] \<notin> set (Object_keys ex_sessions)
   \<and> resolvePresence ex_sessions = Inr ''available''
   \<and> priority_index ''available'' \<le> priority_index ''dnd''
   \<and> priority_index ''available'' \<le> priority_index ''busy''
   \<and> sessions (presentable_run (Some resolvePresence)
         [\<lparr>sp_presence = Some ''dnd'', sp_connectionId = Some ''c1''\<rparr>,
          \<lparr>sp_presence = Some ''busy'', sp_connectionId = Some ''c2''\<rparr>,
          \<lparr>sp_presence = Some ''available'', sp_connectionId = Some ''c3''\<rparr>]) = ex_sessions"
  using resolvePresence_highest_priority [of ex_sessions "Some resolvePresence"
         "[\<lparr>sp_presence = Some ''dnd'', sp_connectionId = Some ''c1''\<rparr>,
          \<lparr>sp_presence = Some ''busy'', sp_connectionId = Some ''c2''\<rparr>,
          \<lparr>sp_presence = Some ''available'', sp_connectionId = Some ''c3''\<rparr>]"]
  by (simp add: ex_sessions_def Object_keys_def resolvePresence_def js_sort_def sorter_def
      session_index_def priority_index_def options_def presentable_run_def setPresence_def
      new_Presentable_def or_default_def array_put_def is_array_index_def fire_presence_def
      Let_def)

text \<open>
  The hypothesis on the ids cannot be dropped from the statement about an arbitrary
  object: \<open>connectionIds[0] ? ... : 'unavailable'\<close> tests the first id for truthiness,
  so an object with a property named by the empty string, which no presentable has,
  resolves to "unavailable" whatever that session reports.
\<close>

lemma resolvePresence_empty_first_id:
  "map_of ex_sessions_empty_id [] = Some \<lparr>connectionId = [], presence = ''chat''\<rparr>
   \<and> resolvePresence ex_sessions_empty_id = Inr ''unavailable''
   \<and> \<not> priority_index ''unavailable'' \<le> priority_index ''chat''"
  by (simp add: ex_sessions_empty_id_def Object_keys_def resolvePresence_def js_sort_def
      priority_index_def options_def)

subsection \<open>setPresence\<close>

text \<open>
  With any connection id other than \<open>length\<close>, an invocation of
  \<open>Presentable.setPresence\<close> (on a plain presentable, which has no resolver, and on an
  endpoint, whose resolver is \<open>resolvePresence\<close>) returns normally and appends exactly
  one "presence" notification, carrying the presence it has just stored; there is no
  comparison with the previous value.
\<close>

lemma setPresence_fires_once:
  assumes "resolver = None \<or> resolver = Some resolvePresence"
    and "or_default (sp_connectionId p) ''local'' \<noteq> ''length''"
  shows "snd (setPresence resolver p s) = None
         \<and> p_trace (fst (setPresence resolver p s)) =
             p_trace s @ [Fire ''presence''
                           (PresencePayload (p_presence (fst (setPresence resolver p s))))]"
proof -
  let ?cid = "or_default (sp_connectionId p) ''local''"
  let ?e = "\<lparr>connectionId = ?cid, presence = or_default (sp_presence p) ''available''\<rparr>"
  obtain ss where put: "array_put ?cid ?e (sessions s) = Inr ss"
    using array_put_ok [OF assms(2), of ?e "sessions s"] by blast
  from assms(1) show ?thesis
  proof
    assume "resolver = None"
    then show ?thesis using put by (simp add: setPresence_def Let_def fire_presence_def)
  next
    assume r: "resolver = Some resolvePresence"
    obtain v where "resolvePresence ss = Inr v" using resolvePresence_total by blast
    then show ?thesis using put r by (simp add: setPresence_def Let_def fire_presence_def)
  qed
qed

lemma setPresence_twice_fires_twice:
  assumes "resolver = None \<or> resolver = Some resolvePresence"
    and "or_default (sp_connectionId p) ''local'' \<noteq> ''length''"
  shows "\<exists>v1 v2. p_trace (fst (setPresence resolver p (fst (setPresence resolver p s)))) =
           p_trace s @ [Fire ''presence'' (PresencePayload v1),
                       Fire ''presence'' (PresencePayload v2)]"
  using setPresence_fires_once [OF assms, of s]
        setPresence_fires_once [OF assms, of "fst (setPresence resolver p s)"]
  by simp

text \<open>
  C4 does not hold of the code. \<open>Presentable\<close> keeps its sessions in an Array
  (\<open>var sessions = []\<close>, where \<open>Endpoint\<close> has \<open>var sessions = {}\<close>), and for the
  connection id \<open>length\<close> the assignment \<open>sessions[params.connectionId] = {...}\<close>
  throws a \<open>RangeError\<close>: \<open>setPresence\<close> is left before \<open>fire\<close>, no notification
  is published and nothing is stored, with or without a resolver.
\<close>

theorem setPresence_length_throws_before_fire:
  "setPresence None ex_presence_params_length new_Presentable = (new_Presentable, Some RangeError)
   \<and> setPresence (Some resolvePresence) ex_presence_params_length new_Presentable =
       (new_Presentable, Some RangeError)
   \<and> p_trace new_Presentable = []"
  by (simp add: setPresence_def ex_presence_params_length_def new_Presentable_def
      or_default_def array_put_def Let_def)

subsection \<open>sendSignal\<close>

lemma sendSignal_always_sends:
  "e_trace (fst (sendSignal p completion e)) =
     e_trace e @ [Log ''debug'' ''Endpoint.sendSignal, no support for custom signaling profiles.'',
        ChannelSendSignal \<lparr>sig_connectionId = ss_connectionId p, sig_signal = ss_signal p\<rparr>]"
  by (simp add: sendSignal_def e_emit_def Let_def)

text \<open>
  C5 does not hold of the code. Invoked without a signal, \<open>sendSignal\<close> rejects the
  promise it returns with the validation error, and then, there being no \<open>return\<close>
  after the rejection, hands the request with its undefined signal to the signaling
  channel all the same.
\<close>

theorem sendSignal_without_signal_still_sends:
  "\<not> truthy (ss_signal ex_no_signal)
   \<and> e_trace (fst (sendSignal ex_no_signal None ex_endpoint)) =
       [Log ''debug'' ''Endpoint.sendSignal, no support for custom signaling profiles.'',
        ChannelSendSignal \<lparr>sig_connectionId = Some ''c1'', sig_signal = None\<rparr>]
   \<and> snd (sendSignal ex_no_signal None ex_endpoint) =
       Rejected (Error (''Can'' @ [CHR 0x27] @ ''t send a signal without a '' @ [CHR 0x27]
                       @ ''signal'' @ [CHR 0x27] @ '' paramter.''))"
  by (simp add: sendSignal_def ex_no_signal_def ex_endpoint_def e_emit_def truthy_def Let_def
      settle_def)

subsection \<open>getDirectConnection\<close>

lemma getDirectConnection_cached:
  assumes "directConnection (cl_endpoint c) = Some dc"
  shows "getDirectConnection p c =
           (on_endpoint (e_emit [Log ''trace'' ''Endpoint.getDirectConnection'']) c, Some dc)"
  using assms by (simp add: getDirectConnection_def on_endpoint_def e_emit_def Let_def)

lemma getDirectConnection_caches:
  "snd (getDirectConnection p c) = directConnection (cl_endpoint (fst (getDirectConnection p c)))"
  by (auto simp: getDirectConnection_def on_endpoint_def e_emit_def Let_def emit_def
      split: option.splits)

text \<open>
  Only the "close" notification of the connection drops the cached reference; the next
  call then constructs a new connection.
\<close>

lemma getDirectConnection_after_close:
  assumes "directConnection (cl_endpoint c) = Some dc" and "truthy (ep_id (cl_endpoint c))"
  shows "snd (directConnection_closed c) = None"
    and "directConnection (cl_endpoint (fst (directConnection_closed c))) = None"
    and "snd (getDirectConnection p (fst (directConnection_closed c))) = Some (cl_fresh c)"
  using assms
  by (simp_all add: directConnection_closed_def getDirectConnection_def on_endpoint_def
      e_emit_def Let_def)

text \<open>
  C7. For every endpoint whose \<open>directConnection\<close> reference is cached, every call of
  \<open>getDirectConnection\<close> returns that reference and leaves everything as it was except
  for one line of the trace log: the cached reference stays, no object is constructed
  (the next free address is the same) and nothing is published on the user. A further
  call returns the same reference again; and in any state, a second call that follows
  a first one without a close in between returns what the first returned.
\<close>

theorem getDirectConnection_returns_cached:
  assumes "directConnection (cl_endpoint c) = Some dc"
  shows "getDirectConnection p c =
           (on_endpoint (e_emit [Log ''trace'' ''Endpoint.getDirectConnection'']) c, Some dc)
         \<and> directConnection (cl_endpoint (fst (getDirectConnection p c))) = Some dc
         \<and> cl_fresh (fst (getDirectConnection p c)) = cl_fresh c
         \<and> cl_user (fst (getDirectConnection p c)) = cl_user c
         \<and> snd (getDirectConnection p' (fst (getDirectConnection p c))) = Some dc
         \<and> snd (getDirectConnection p' (fst (getDirectConnection p c'))) =
             snd (getDirectConnection p c')"
proof -
  have one: "getDirectConnection p c =
           (on_endpoint (e_emit [Log ''trace'' ''Endpoint.getDirectConnection'']) c, Some dc)"
    using assms by (rule getDirectConnection_cached)
  have still: "directConnection (cl_endpoint (fst (getDirectConnection p c))) = Some dc"
    using assms by (simp add: one on_endpoint_def e_emit_def)
  have again: "snd (getDirectConnection p' (fst (getDirectConnection p c))) = Some dc"
    using getDirectConnection_cached [OF still] by simp
  have twice: "snd (getDirectConnection p' (fst (getDirectConnection p c'))) =
             snd (getDirectConnection p c')"
  proof (cases "snd (getDirectConnection p c')")
    case None
    then have "directConnection (cl_endpoint (fst (getDirectConnection p c'))) = None"
      by (simp add: getDirectConnection_caches [symmetric])
    moreover have "\<not> truthy (ep_id (cl_endpoint (fst (getDirectConnection p c'))))"
      using None
      by (auto simp: getDirectConnection_def on_endpoint_def e_emit_def Let_def emit_def
          split: option.splits if_splits)
    ultimately show ?thesis
      using None by (simp add: getDirectConnection_def [of p'] on_endpoint_def e_emit_def Let_def)
  next
    case (Some r)
    then have "directConnection (cl_endpoint (fst (getDirectConnection p c'))) = Some r"
      by (simp add: getDirectConnection_caches [symmetric])
    from getDirectConnection_cached [OF this] Some show ?thesis by simp
  qed
  show ?thesis
    using one still again twice by (simp add: on_endpoint_def)
qed

theorem getDirectConnection_returns_cached_witness:
  "directConnection (cl_endpoint (fst (getDirectConnection \<lparr>gd_initiator = Some False\<rparr> ex_client)))
     = Some 40
   \<and> snd (getDirectConnection \<lparr>gd_initiator = None\<rparr>
       (fst (getDirectConnection \<lparr>gd_initiator = Some False\<rparr> ex_client))) = Some 40
   \<and> cl_fresh (fst (getDirectConnection \<lparr>gd_initiator = None\<rparr>
       (fst (getDirectConnection \<lparr>gd_initiator = Some False\<rparr> ex_client)))) = 41"
proof -
  have cached: "directConnection (cl_endpoint
      (fst (getDirectConnection \<lparr>gd_initiator = Some False\<rparr> ex_client))) = Some 40"
    by (simp add: getDirectConnection_def ex_client_def ex_endpoint_def on_endpoint_def
        e_emit_def emit_def Let_def truthy_def hasListeners_def new_User_def)
  have fresh: "cl_fresh (fst (getDirectConnection \<lparr>gd_initiator = Some False\<rparr> ex_client)) = 41"
    by (simp add: getDirectConnection_def ex_client_def ex_endpoint_def on_endpoint_def
        e_emit_def emit_def Let_def truthy_def hasListeners_def new_User_def)
  show ?thesis
    using getDirectConnection_returns_cached [OF cached, of "\<lparr>gd_initiator = None\<rparr>"] cached fresh
    by (simp add: on_endpoint_def)
qed

subsection \<open>The cache of streams\<close>

lemma getStream_None_iff:
  "getStream ss c = None \<longleftrightarrow> (\<forall>e \<in> set ss. strip_sourceId (ce_constraints e) \<noteq> c)"
  by (induction ss) (auto simp: isEqual_def)


lemma removeStream_Nil: "removeStream [] c = []"
  by (simp add: removeStream_def)

lemma removeStream_Cons:
  "removeStream (e # ss) c = (if ce_constraints e = c then ss else e # removeStream ss c)"
  by (auto simp: removeStream_def isEqual_def split: option.splits)

lemma removeStream_absent: "\<forall>e \<in> set ss. ce_constraints e \<noteq> c \<Longrightarrow> removeStream ss c = ss"
  by (induction ss) (auto simp: removeStream_Nil removeStream_Cons)





subsection \<open>stop, and start followed by stop\<close>








lemma strip_sourceId_not_truthy:
  assumes "truthy sourceId"
  shows "strip_sourceId e \<noteq> with_sourceId sourceId m cms ms c"
proof
  assume eq: "strip_sourceId e = with_sourceId sourceId m cms ms c"
  then have v: "c_video (strip_sourceId e) = VideoObj (Some (m\<lparr>chromeMediaSourceId := sourceId\<rparr>)) cms ms"
    by (simp add: with_sourceId_def)
  show False
  proof (cases "c_video e")
    case (VideoFlag b)
    then show False using v by (simp add: strip_sourceId_def)
  next
    case (VideoObj mo a b)
    show False
    proof (cases mo)
      case None
      then show False using v VideoObj by (simp add: strip_sourceId_def)
    next
      case (Some me)
      show False
      proof (cases "truthy (chromeMediaSourceId me)")
        case True
        then have "c_video (strip_sourceId e) = VideoObj (Some (me\<lparr>chromeMediaSourceId := None\<rparr>)) a b"
          using VideoObj Some by (simp add: strip_sourceId_def)
        with v have "m\<lparr>chromeMediaSourceId := sourceId\<rparr> = me\<lparr>chromeMediaSourceId := None\<rparr>"
          by simp
        then have "chromeMediaSourceId (m\<lparr>chromeMediaSourceId := sourceId\<rparr>) =
                   chromeMediaSourceId (me\<lparr>chromeMediaSourceId := None\<rparr>)"
          by (rule arg_cong)
        then have "sourceId = None" by simp
        then show False using assms by (simp add: truthy_def)
      next
        case False
        then have "c_video (strip_sourceId e) = VideoObj (Some me) a b"
          using VideoObj Some by (simp add: strip_sourceId_def)
        with v have "me = m\<lparr>chromeMediaSourceId := sourceId\<rparr>" by simp
        then show False using False assms by simp
      qed
    qed
  qed
qed

lemma getStream_with_sourceId:
  "truthy sourceId \<Longrightarrow> getStream ss (with_sourceId sourceId m cms ms c) = None"
  by (simp add: getStream_None_iff strip_sourceId_not_truthy)

lemma strip_with_sourceId:
  assumes "truthy sourceId" and "c_video c = VideoObj (Some m) cms ms"
    and "chromeMediaSourceId m = None"
  shows "strip_sourceId (with_sourceId sourceId m cms ms c) = c"
  using assms by (simp add: strip_sourceId_def with_sourceId_def)







subsection \<open>Muting\<close>

lemma list_all_disabled: "list_all (\<lambda>enabled. \<not> enabled) (map (\<lambda>track. False) ts)"
  by (induction ts) auto

lemma not_list_all_enabled:
  "ts \<noteq> [] \<Longrightarrow> \<not> list_all (\<lambda>enabled. \<not> enabled) (map (\<lambda>track. True) ts)"
  by (cases ts) auto

lemma muteVideo_when_muted: "isVideoMuted st = Some True \<Longrightarrow> muteVideo st = (st, None)"
  by (simp add: muteVideo_def)

lemma muteVideo_when_not_muted:
  assumes "stream (snd st) = Some r" and "isVideoMuted st \<noteq> Some True"
  shows "muteVideo st =
           ((upd_stream r (\<lambda>s. s\<lparr>videoTracks := map (\<lambda>track. False) (videoTracks s)\<rparr>) (fst st),
             m_emit [MFire ''mute'' (MutePayload ''video'' True)] (snd st)), None)"
  using assms by (simp add: muteVideo_def)

lemma muteVideo_then_muted:
  assumes "stream (snd st) = Some r" and "videoTracks (heap (fst st) r) \<noteq> []"
  shows "isVideoMuted (fst (muteVideo st)) = Some True"
proof (cases "isVideoMuted st = Some True")
  case True
  then show ?thesis by (simp add: muteVideo_when_muted)
next
  case False
  show ?thesis
    unfolding muteVideo_when_not_muted [OF assms(1) False]
    using assms by (simp add: isVideoMuted_def upd_stream_def m_emit_def list_all_disabled)
qed

lemma unmuteVideo_when_not_muted: "isVideoMuted st \<noteq> Some True \<Longrightarrow> unmuteVideo st = (st, None)"
  by (simp add: unmuteVideo_def)

lemma unmuteVideo_when_muted:
  assumes "stream (snd st) = Some r" and "isVideoMuted st = Some True"
  shows "unmuteVideo st =
           ((upd_stream r (\<lambda>s. s\<lparr>videoTracks := map (\<lambda>track. True) (videoTracks s)\<rparr>) (fst st),
             m_emit [MFire ''mute'' (MutePayload ''video'' False)] (snd st)), None)"
  using assms by (simp add: unmuteVideo_def)

lemma unmuteVideo_then_not_muted:
  assumes "stream (snd st) = Some r" and "videoTracks (heap (fst st) r) \<noteq> []"
  shows "isVideoMuted (fst (unmuteVideo st)) \<noteq> Some True"
proof (cases "isVideoMuted st = Some True")
  case False
  then show ?thesis by (simp add: unmuteVideo_when_not_muted)
next
  case True
  show ?thesis
    unfolding unmuteVideo_when_muted [OF assms(1) True]
    using assms by (simp add: isVideoMuted_def upd_stream_def m_emit_def not_list_all_enabled)
qed

lemma muteAudio_when_muted: "isAudioMuted st = Some True \<Longrightarrow> muteAudio st = (st, None)"
  by (simp add: muteAudio_def)

lemma muteAudio_when_not_muted:
  assumes "stream (snd st) = Some r" and "isAudioMuted st \<noteq> Some True"
  shows "muteAudio st =
           ((upd_stream r (\<lambda>s. s\<lparr>audioTracks := map (\<lambda>track. False) (audioTracks s)\<rparr>) (fst st),
             m_emit [MFire ''mute'' (MutePayload ''audio'' True)] (snd st)), None)"
  using assms by (simp add: muteAudio_def)

lemma muteAudio_then_muted:
  assumes "stream (snd st) = Some r" and "audioTracks (heap (fst st) r) \<noteq> []"
  shows "isAudioMuted (fst (muteAudio st)) = Some True"
proof (cases "isAudioMuted st = Some True")
  case True
  then show ?thesis by (simp add: muteAudio_when_muted)
next
  case False
  show ?thesis
    unfolding muteAudio_when_not_muted [OF assms(1) False]
    using assms by (simp add: isAudioMuted_def upd_stream_def m_emit_def list_all_disabled)
qed

lemma unmuteAudio_when_not_muted: "isAudioMuted st \<noteq> Some True \<Longrightarrow> unmuteAudio st = (st, None)"
  by (simp add: unmuteAudio_def)

lemma unmuteAudio_when_muted:
  assumes "stream (snd st) = Some r" and "isAudioMuted st = Some True"
  shows "unmuteAudio st =
           ((upd_stream r (\<lambda>s. s\<lparr>audioTracks := map (\<lambda>track. True) (audioTracks s)\<rparr>) (fst st),
             m_emit [MFire ''mute'' (MutePayload ''audio'' False)] (snd st)), None)"
  using assms by (simp add: unmuteAudio_def)

lemma unmuteAudio_then_not_muted:
  assumes "stream (snd st) = Some r" and "audioTracks (heap (fst st) r) \<noteq> []"
  shows "isAudioMuted (fst (unmuteAudio st)) \<noteq> Some True"
proof (cases "isAudioMuted st = Some True")
  case False
  then show ?thesis by (simp add: unmuteAudio_when_not_muted)
next
  case True
  show ?thesis
    unfolding unmuteAudio_when_muted [OF assms(1) True]
    using assms by (simp add: isAudioMuted_def upd_stream_def m_emit_def not_list_all_enabled)
qed

text \<open>
  C8, amended. For every instance with a live stream that has at least one track of the
  media type: \<open>muteVideo\<close> (\<open>muteAudio\<close>) changes nothing and publishes nothing when
  every track of the type is already disabled, and otherwise disables every track of the
  type and publishes exactly one "mute" notification with \<open>muted: true\<close>; a second call
  right after the first changes nothing, so two calls on an instance that is not muted
  publish exactly one notification. \<open>unmuteVideo\<close> (\<open>unmuteAudio\<close>) changes nothing
  and publishes nothing unless every track of the type is disabled; then it enables every
  track and publishes exactly one "mute" notification with \<open>muted: false\<close>, and a
  second call changes nothing.
\<close>

theorem mute_operations_idempotent:
  "(stream (snd st) = Some r \<and> videoTracks (heap (fst st) r) \<noteq> [] \<longrightarrow>
      (isVideoMuted st = Some True \<longrightarrow> muteVideo st = (st, None))
    \<and> (isVideoMuted st \<noteq> Some True \<longrightarrow>
         muteVideo st =
           ((upd_stream r (\<lambda>s. s\<lparr>videoTracks := map (\<lambda>track. False) (videoTracks s)\<rparr>) (fst st),
             m_emit [MFire ''mute'' (MutePayload ''video'' True)] (snd st)), None))
    \<and> muteVideo (fst (muteVideo st)) = (fst (muteVideo st), None)
    \<and> (isVideoMuted st \<noteq> Some True \<longrightarrow> unmuteVideo st = (st, None))
    \<and> (isVideoMuted st = Some True \<longrightarrow>
         unmuteVideo st =
           ((upd_stream r (\<lambda>s. s\<lparr>videoTracks := map (\<lambda>track. True) (videoTracks s)\<rparr>) (fst st),
             m_emit [MFire ''mute'' (MutePayload ''video'' False)] (snd st)), None))
    \<and> unmuteVideo (fst (unmuteVideo st)) = (fst (unmuteVideo st), None))
   \<and> (stream (snd st') = Some r' \<and> audioTracks (heap (fst st') r') \<noteq> [] \<longrightarrow>
      (isAudioMuted st' = Some True \<longrightarrow> muteAudio st' = (st', None))
    \<and> (isAudioMuted st' \<noteq> Some True \<longrightarrow>
         muteAudio st' =
           ((upd_stream r' (\<lambda>s. s\<lparr>audioTracks := map (\<lambda>track. False) (audioTracks s)\<rparr>) (fst st'),
             m_emit [MFire ''mute'' (MutePayload ''audio'' True)] (snd st')), None))
    \<and> muteAudio (fst (muteAudio st')) = (fst (muteAudio st'), None)
    \<and> (isAudioMuted st' \<noteq> Some True \<longrightarrow> unmuteAudio st' = (st', None))
    \<and> (isAudioMuted st' = Some True \<longrightarrow>
         unmuteAudio st' =
           ((upd_stream r' (\<lambda>s. s\<lparr>audioTracks := map (\<lambda>track. True) (audioTracks s)\<rparr>) (fst st'),
             m_emit [MFire ''mute'' (MutePayload ''audio'' False)] (snd st')), None))
    \<and> unmuteAudio (fst (unmuteAudio st')) = (fst (unmuteAudio st'), None))"
proof (intro conjI impI; (elim conjE)?)
  show "muteVideo st = (st, None)" if "isVideoMuted st = Some True"
    using that by (rule muteVideo_when_muted)
  show "muteVideo st =
           ((upd_stream r (\<lambda>s. s\<lparr>videoTracks := map (\<lambda>track. False) (videoTracks s)\<rparr>) (fst st),
             m_emit [MFire ''mute'' (MutePayload ''video'' True)] (snd st)), None)"
    if "stream (snd st) = Some r" "isVideoMuted st \<noteq> Some True"
    using that by (rule muteVideo_when_not_muted)
  show "muteVideo (fst (muteVideo st)) = (fst (muteVideo st), None)"
    if "stream (snd st) = Some r" "videoTracks (heap (fst st) r) \<noteq> []"
    using muteVideo_then_muted [OF that] by (rule muteVideo_when_muted)
  show "unmuteVideo st = (st, None)" if "isVideoMuted st \<noteq> Some True"
    using that by (rule unmuteVideo_when_not_muted)
  show "unmuteVideo st =
           ((upd_stream r (\<lambda>s. s\<lparr>videoTracks := map (\<lambda>track. True) (videoTracks s)\<rparr>) (fst st),
             m_emit [MFire ''mute'' (MutePayload ''video'' False)] (snd st)), None)"
    if "stream (snd st) = Some r" "isVideoMuted st = Some True"
    using that by (rule unmuteVideo_when_muted)
  show "unmuteVideo (fst (unmuteVideo st)) = (fst (unmuteVideo st), None)"
    if "stream (snd st) = Some r" "videoTracks (heap (fst st) r) \<noteq> []"
    using unmuteVideo_then_not_muted [OF that] by (rule unmuteVideo_when_not_muted)
  show "muteAudio st' = (st', None)" if "isAudioMuted st' = Some True"
    using that by (rule muteAudio_when_muted)
  show "muteAudio st' =
           ((upd_stream r' (\<lambda>s. s\<lparr>audioTracks := map (\<lambda>track. False) (audioTracks s)\<rparr>) (fst st'),
             m_emit [MFire ''mute'' (MutePayload ''audio'' True)] (snd st')), None)"
    if "stream (snd st') = Some r'" "isAudioMuted st' \<noteq> Some True"
    using that by (rule muteAudio_when_not_muted)
  show "muteAudio (fst (muteAudio st')) = (fst (muteAudio st'), None)"
    if "stream (snd st') = Some r'" "audioTracks (heap (fst st') r') \<noteq> []"
    using muteAudio_then_muted [OF that] by (rule muteAudio_when_muted)
  show "unmuteAudio st' = (st', None)" if "isAudioMuted st' \<noteq> Some True"
    using that by (rule unmuteAudio_when_not_muted)
  show "unmuteAudio st' =
           ((upd_stream r' (\<lambda>s. s\<lparr>audioTracks := map (\<lambda>track. True) (audioTracks s)\<rparr>) (fst st'),
             m_emit [MFire ''mute'' (MutePayload ''audio'' False)] (snd st')), None)"
    if "stream (snd st') = Some r'" "isAudioMuted st' = Some True"
    using that by (rule unmuteAudio_when_muted)
  show "unmuteAudio (fst (unmuteAudio st')) = (fst (unmuteAudio st'), None)"
    if "stream (snd st') = Some r'" "audioTracks (heap (fst st') r') \<noteq> []"
    using unmuteAudio_then_not_muted [OF that] by (rule unmuteAudio_when_not_muted)
qed

theorem mute_operations_idempotent_witness:
  "stream (snd ex_live) = Some 1
   \<and> videoTracks (heap (fst ex_live) 1) = [True]
   \<and> isVideoMuted ex_live = Some False
   \<and> lm_trace (snd (fst (muteVideo ex_live))) =
       lm_trace (snd ex_live) @ [MFire ''mute'' (MutePayload ''video'' True)]
   \<and> videoTracks (heap (fst (fst (muteVideo ex_live))) 1) = [False]
   \<and> lm_trace (snd (fst (muteVideo (fst (muteVideo ex_live))))) =
       lm_trace (snd ex_live) @ [MFire ''mute'' (MutePayload ''video'' True)]
   \<and> unmuteVideo ex_live = (ex_live, None)
   \<and> lm_trace (snd (fst (muteAudio (fst (muteAudio ex_live))))) =
       lm_trace (snd ex_live) @ [MFire ''mute'' (MutePayload ''audio'' True)]
   \<and> unmuteAudio ex_live = (ex_live, None)"
  using mute_operations_idempotent [of ex_live 1 ex_live 1]
  by (simp add: ex_live_def ex_world_def ex_instance_def ex_constraints_def ex_new_stream_def
      start_def requestMedia_def onReceiveUserMedia_def requested_constraints_def
      requestingScreenShare_def strip_sourceId_def isEqual_def upd_stream_def m_emit_def
      m_resolve_def settle_def Let_def isVideoMuted_def isAudioMuted_def
      muteVideo_def unmuteVideo_def muteAudio_def unmuteAudio_def)

text \<open>
  C8, as stated for every instance with a live stream, fails in two ways. On a stream
  without a video track \<open>isVideoMuted\<close> is \<open>undefined\<close>, which \<open>muteVideo\<close> takes
  for "not muted": every call publishes a notification, two calls publish two. And on a
  stream whose video tracks differ (one enabled, one disabled) \<open>unmuteVideo\<close> does
  nothing, although not every track is enabled.
\<close>

theorem muteVideo_without_video_track_fires_again:
  "stream (snd ex_audio_only) = Some 1
   \<and> videoTracks (heap (fst ex_audio_only) 1) = []
   \<and> lm_trace (snd ex_audio_only) = []
   \<and> lm_trace (snd (fst (muteVideo (fst (muteVideo ex_audio_only))))) =
       [MFire ''mute'' (MutePayload ''video'' True), MFire ''mute'' (MutePayload ''video'' True)]
   \<and> stream (snd ex_mixed_video) = Some 1
   \<and> videoTracks (heap (fst ex_mixed_video) 1) = [True, False]
   \<and> unmuteVideo ex_mixed_video = (ex_mixed_video, None)"
  by (simp add: ex_audio_only_def ex_mixed_video_def ex_world_def ex_instance_def
      ex_constraints_def ex_new_stream_def upd_stream_def m_emit_def Let_def
      isVideoMuted_def muteVideo_def unmuteVideo_def)

end
